theory Spec2Isabelle
  imports Complex_Main
begin

section \<open>The multi-tier full-range pool of muffin_fullrange.py\<close>

text \<open>
  The pool keeps one array per quantity, indexed by tier. The arrays are modelled as lists
  and the numbers as exact reals: the development describes the arithmetic of the formulas,
  not the rounding of 64-bit floats. A division whose divisor is zero makes numpy produce
  inf or nan without raising; such values have no counterpart in \<^typ>\<open>real\<close>, so the
  theorems about computed values carry the hypotheses under which no divisor is zero
  (\<open>valid_pool\<close>), and the one quotient whose divisor is computed from the allocation
  (\<open>fee_bps\<close>) is an option.

  The operations index every array with the same boolean mask, which numpy accepts only
  when the arrays have the same length; the theorems assume this of the pool
  (\<open>wf_pool\<close>, part of \<open>valid_pool\<close>).
\<close>

subsection \<open>Arrays and boolean masks\<close>

text \<open>\<open>a[mask]\<close>: the entries of \<open>a\<close> at the positions where the mask is true.\<close>

fun sel :: "bool list \<Rightarrow> 'a list \<Rightarrow> 'a list" where
  "sel (b # bs) (x # xs) = (if b then x # sel bs xs else sel bs xs)"
| "sel _ _ = []"

text \<open>
  \<open>a[mask] = vs\<close>: the values \<open>vs\<close> are written, in order, to the positions where the mask
  is true. Every use in the source writes as many values as the mask has true entries.
\<close>

fun put :: "bool list \<Rightarrow> 'a list \<Rightarrow> 'a list \<Rightarrow> 'a list" where
  "put (True # bs) (x # xs) (v # vs) = v # put bs xs vs"
| "put (False # bs) (x # xs) vs = x # put bs xs vs"
| "put _ xs _ = xs"

text \<open>\<open>a[mask] = c\<close> for a scalar \<open>c\<close>.\<close>

fun fill :: "bool list \<Rightarrow> 'a list \<Rightarrow> 'a \<Rightarrow> 'a list" where
  "fill (b # bs) (x # xs) c = (if b then c else x) # fill bs xs c"
| "fill _ xs _ = xs"

definition np_zeros :: "nat \<Rightarrow> real list" where
  "np_zeros n = replicate n 0"

definition np_full :: "nat \<Rightarrow> bool \<Rightarrow> bool list" where
  "np_full n b = replicate n b"

definition map3 :: "('a \<Rightarrow> 'b \<Rightarrow> 'c \<Rightarrow> 'd) \<Rightarrow> 'a list \<Rightarrow> 'b list \<Rightarrow> 'c list \<Rightarrow> 'd list" where
  "map3 f xs ys zs = map (\<lambda>(x, y, z). f x y z) (zip xs (zip ys zs))"

definition count_true :: "bool list \<Rightarrow> nat" where
  "count_true m = length (filter (\<lambda>b. b) m)"

subsection \<open>Pool state\<close>

record Pool =
  size_p :: nat
  liquidity_arr :: "real list"
  sqrt_p_arr :: "real list"
  sqrt_gamma_arr :: "real list"
  fee0_growth_arr :: "real list"
  fee1_growth_arr :: "real list"

datatype error = AssertionError | ValueError | IndexError

text \<open>
  \<open>Pool.__init__\<close> has no check and no raise: it stores what it is given. The result type
  is a sum so that "construction fails" can be stated at all.
\<close>

definition Pool_init :: "real list \<Rightarrow> real list \<Rightarrow> real \<Rightarrow> error + Pool" where
  "Pool_init liquidity sqrt_gamma sqrt_p =
     Inr \<lparr> size_p = length liquidity,
           liquidity_arr = liquidity,
           sqrt_p_arr = replicate (length liquidity) sqrt_p,
           sqrt_gamma_arr = sqrt_gamma,
           fee0_growth_arr = replicate (length liquidity) 0,
           fee1_growth_arr = replicate (length liquidity) 0 \<rparr>"

definition wf_pool :: "Pool \<Rightarrow> bool" where
  "wf_pool p \<longleftrightarrow>
     length (liquidity_arr p) = size_p p \<and> length (sqrt_p_arr p) = size_p p \<and>
     length (sqrt_gamma_arr p) = size_p p \<and>
     length (fee0_growth_arr p) = size_p p \<and> length (fee1_growth_arr p) = size_p p"

definition valid_pool :: "Pool \<Rightarrow> bool" where
  "valid_pool p \<longleftrightarrow>
     wf_pool p \<and>
     (\<forall>i < size_p p. 0 < liquidity_arr p ! i) \<and>
     (\<forall>i < size_p p. 0 < sqrt_p_arr p ! i) \<and>
     (\<forall>i < size_p p. 0 < sqrt_gamma_arr p ! i \<and> sqrt_gamma_arr p ! i \<le> 1)"

subsection \<open>Price algebra\<close>

definition calc_sqrt_p_from_amt :: "bool \<Rightarrow> real \<Rightarrow> real \<Rightarrow> real \<Rightarrow> real" where
  "calc_sqrt_p_from_amt is_token0 sqrt_p0 liquidity amt =
     (if is_token0 then (liquidity * sqrt_p0) / (liquidity + (amt * sqrt_p0))
      else sqrt_p0 + (amt / liquidity))"

definition calc_amt_from_sqrt_p :: "bool \<Rightarrow> real \<Rightarrow> real \<Rightarrow> real \<Rightarrow> real" where
  "calc_amt_from_sqrt_p is_token0 sqrt_p0 sqrt_p1 liquidity =
     (if is_token0 then liquidity * (sqrt_p0 - sqrt_p1) / (sqrt_p0 * sqrt_p1)
      else liquidity * (sqrt_p1 - sqrt_p0))"

subsection \<open>Tier allocator\<close>

text \<open>The three working arrays of \<open>_calc_tier_amts_in\<close>.\<close>

definition gamma_arr :: "Pool \<Rightarrow> real list" where
  "gamma_arr p = map (\<lambda>g. g ^ 2) (sqrt_gamma_arr p)"

definition lsg_arr :: "Pool \<Rightarrow> real list" where
  "lsg_arr p = map2 (/) (liquidity_arr p) (sqrt_gamma_arr p)"

definition res_arr :: "Pool \<Rightarrow> bool \<Rightarrow> real list" where
  "res_arr p is_token0 =
     (if is_token0 then map2 (/) (map2 (/) (liquidity_arr p) (sqrt_p_arr p)) (gamma_arr p)
      else map2 (/) (map2 (*) (liquidity_arr p) (sqrt_p_arr p)) (gamma_arr p))"

text \<open>
  The assignment that opens the loop body:
  \<open>amts[mask] = (lsg[mask] * (amount + sum(res[mask])) / sum(lsg[mask])) - res[mask]\<close>.
\<close>

definition alloc :: "real list \<Rightarrow> real list \<Rightarrow> real \<Rightarrow> bool list \<Rightarrow> real list \<Rightarrow> real list" where
  "alloc lsg res amount msk amts =
     put msk amts
       (map2 (-)
          (map (\<lambda>l. l * (amount + sum_list (sel msk res)) / sum_list (sel msk lsg)) (sel msk lsg))
          (sel msk res))"

text \<open>\<open>mask &= amts >= 0\<close>.\<close>

definition shrink :: "bool list \<Rightarrow> real list \<Rightarrow> bool list" where
  "shrink msk amts = map2 (\<and>) msk (map (\<lambda>a. 0 \<le> a) amts)"


text \<open>
  The \<open>while True\<close> loop. It stops when every active amount is non-negative; otherwise
  the mask loses the tiers whose amount is negative and the body runs again. The number of
  true entries of the mask decreases with every repetition, which is the termination
  argument.
\<close>

function loop_amts :: "real list \<Rightarrow> real list \<Rightarrow> real \<Rightarrow> bool list \<Rightarrow> real list \<Rightarrow> real list \<times> bool list" where
  "loop_amts lsg res amount msk amts =
     (let amts1 = alloc lsg res amount msk amts
      in if list_all (\<lambda>a. 0 \<le> a) (sel msk amts1)
         then (fill (map Not msk) amts1 0, msk)
         else loop_amts lsg res amount (shrink msk amts1) amts1)"
  by pat_completeness auto
termination
proof (relation "measure (\<lambda>(lsg, res, amount, msk, amts). count_true msk)")
  show "wf (measure (\<lambda>(lsg, res, amount, msk, amts). count_true msk))"
    by simp
next
  fix lsg res :: "real list" and amount :: real and msk :: "bool list" and amts amts1 :: "real list"
  assume neg: "\<not> list_all (\<lambda>a. 0 \<le> a) (sel msk amts1)"
  have le: "count_true (shrink m xs) \<le> count_true m" for m and xs :: "real list"
    unfolding shrink_def count_true_def
  proof (induction m arbitrary: xs)
    case Nil
    show ?case by simp
  next
    case (Cons b bs)
    then show ?case by (cases xs) (auto simp: le_SucI)
  qed
  have less: "\<not> list_all (\<lambda>a. 0 \<le> a) (sel m xs) \<Longrightarrow> count_true (shrink m xs) < count_true m"
    for m and xs :: "real list"
  proof (induction m xs rule: sel.induct)
    case (1 b bs x xs)
    show ?case
    proof (cases "b \<and> \<not> 0 \<le> x")
      case True
      then show ?thesis using le [of bs xs] by (simp add: shrink_def count_true_def)
    next
      case False
      then have "\<not> list_all (\<lambda>a. 0 \<le> a) (sel bs xs)"
        using "1.prems" by (auto split: if_splits)
      then have "count_true (shrink bs xs) < count_true bs"
        using 1 False by (auto split: if_splits)
      then show ?thesis by (simp add: shrink_def count_true_def)
    qed
  qed simp_all
  show "((lsg, res, amount, shrink msk amts1, amts1), (lsg, res, amount, msk, amts))
          \<in> measure (\<lambda>(lsg, res, amount, msk, amts). count_true msk)"
    using less [OF neg] by simp
qed

text \<open>
  The same loop, recording what each pass sees: the mask it starts from and the array
  \<open>amts\<close> right after the assignment. It is used to speak about "every iteration".
\<close>

function loop_trace :: "real list \<Rightarrow> real list \<Rightarrow> real \<Rightarrow> bool list \<Rightarrow> real list \<Rightarrow> (bool list \<times> real list) list" where
  "loop_trace lsg res amount msk amts =
     (let amts1 = alloc lsg res amount msk amts
      in (msk, amts1) #
         (if list_all (\<lambda>a. 0 \<le> a) (sel msk amts1)
          then []
          else loop_trace lsg res amount (shrink msk amts1) amts1))"
  by pat_completeness auto
termination
proof (relation "measure (\<lambda>(lsg, res, amount, msk, amts). count_true msk)")
  show "wf (measure (\<lambda>(lsg, res, amount, msk, amts). count_true msk))"
    by simp
next
  fix lsg res :: "real list" and amount :: real and msk :: "bool list" and amts amts1 :: "real list"
  assume neg: "\<not> list_all (\<lambda>a. 0 \<le> a) (sel msk amts1)"
  have le: "count_true (shrink m xs) \<le> count_true m" for m and xs :: "real list"
    unfolding shrink_def count_true_def
  proof (induction m arbitrary: xs)
    case Nil
    show ?case by simp
  next
    case (Cons b bs)
    then show ?case by (cases xs) (auto simp: le_SucI)
  qed
  have less: "\<not> list_all (\<lambda>a. 0 \<le> a) (sel m xs) \<Longrightarrow> count_true (shrink m xs) < count_true m"
    for m and xs :: "real list"
  proof (induction m xs rule: sel.induct)
    case (1 b bs x xs)
    show ?case
    proof (cases "b \<and> \<not> 0 \<le> x")
      case True
      then show ?thesis using le [of bs xs] by (simp add: shrink_def count_true_def)
    next
      case False
      then have "\<not> list_all (\<lambda>a. 0 \<le> a) (sel bs xs)"
        using "1.prems" by (auto split: if_splits)
      then have "count_true (shrink bs xs) < count_true bs"
        using 1 False by (auto split: if_splits)
      then show ?thesis by (simp add: shrink_def count_true_def)
    qed
  qed simp_all
  show "((lsg, res, amount, shrink msk amts1, amts1), (lsg, res, amount, msk, amts))
          \<in> measure (\<lambda>(lsg, res, amount, msk, amts). count_true msk)"
    using less [OF neg] by simp
qed

definition calc_tier_amts_in :: "Pool \<Rightarrow> bool \<Rightarrow> real \<Rightarrow> error + (real list \<times> bool list)" where
  "calc_tier_amts_in p is_token0 amount =
     (if \<not> 0 \<le> amount then Inl AssertionError
      else Inr (loop_amts (lsg_arr p) (res_arr p is_token0) amount
                  (np_full (size_p p) True) (np_zeros (size_p p))))"

definition calc_tier_trace :: "Pool \<Rightarrow> bool \<Rightarrow> real \<Rightarrow> (bool list \<times> real list) list" where
  "calc_tier_trace p is_token0 amount =
     loop_trace (lsg_arr p) (res_arr p is_token0) amount
       (np_full (size_p p) True) (np_zeros (size_p p))"

subsection \<open>Swap\<close>

text \<open>
  The dictionary that \<open>swap\<close> returns. \<open>fee_bps\<close> divides by the summed input; numpy yields
  nan or inf when that sum is zero, which is \<open>None\<close> here.
\<close>

record swap_result =
  amt_in :: real
  amt_out :: real
  fee_amt :: real
  fee_bps :: "real option"
  amts_in :: "real list"
  amts_out :: "real list"
  fee_amts :: "real list"

text \<open>
  \<open>swap\<close> mutates the pool, so the model returns the pool after the call next to the
  outcome, also when the call raises.
\<close>

definition swap :: "Pool \<Rightarrow> bool \<Rightarrow> real \<Rightarrow> (error + swap_result) \<times> Pool" where
  "swap p is_token0 amt_desired =
     (let is_exact_in = (0 < amt_desired)
      in if \<not> is_exact_in then (Inl AssertionError, p)
         else case calc_tier_amts_in p is_token0 amt_desired of
           Inl e \<Rightarrow> (Inl e, p)
         | Inr (amts_in', msk) \<Rightarrow>
           (let gamma = map (\<lambda>g. g ^ 2) (sqrt_gamma_arr p);
                amts_in_after_fee =
                  put msk (np_zeros (size_p p)) (map2 (*) (sel msk amts_in') (sel msk gamma));
                sqrt_p_new =
                  put msk (np_zeros (size_p p))
                    (map3 (calc_sqrt_p_from_amt is_token0)
                       (sel msk (sqrt_p_arr p)) (sel msk (liquidity_arr p)) (sel msk amts_in_after_fee));
                amts_out' =
                  put msk (np_zeros (size_p p))
                    (map3 (calc_amt_from_sqrt_p (\<not> is_token0))
                       (sel msk (sqrt_p_arr p)) (sel msk sqrt_p_new) (sel msk (liquidity_arr p)));
                fee_amts' =
                  put msk (np_zeros (size_p p)) (map2 (-) (sel msk amts_in') (sel msk amts_in_after_fee));
                p1 = p\<lparr>sqrt_p_arr := put msk (sqrt_p_arr p) (sel msk sqrt_p_new)\<rparr>;
                growth = map2 (/) (sel msk fee_amts') (sel msk (liquidity_arr p1));
                p2 = (if is_token0 = is_exact_in
                      then p1\<lparr>fee0_growth_arr :=
                              put msk (fee0_growth_arr p1) (map2 (+) (sel msk (fee0_growth_arr p1)) growth)\<rparr>
                      else p1\<lparr>fee1_growth_arr :=
                              put msk (fee1_growth_arr p1) (map2 (+) (sel msk (fee1_growth_arr p1)) growth)\<rparr>)
            in (Inr \<lparr> amt_in = sum_list (sel msk amts_in'),
                      amt_out = sum_list (sel msk amts_out'),
                      fee_amt = sum_list (sel msk fee_amts'),
                      fee_bps = (if sum_list (sel msk amts_in') = 0 then None
                                 else Some (sum_list (sel msk fee_amts') / sum_list (sel msk amts_in') * 10000)),
                      amts_in = amts_in',
                      amts_out = amts_out',
                      fee_amts = fee_amts' \<rparr>,
                p2)))"



subsection \<open>Concrete pools\<close>

text \<open>
  Two tiers of liquidity 1 at price 1; the first keeps a quarter of its input
  (\<open>sqrt_gamma = 1/2\<close>), the second charges no fee.
\<close>

definition pool2 :: Pool where
  "pool2 = \<lparr> size_p = 2, liquidity_arr = [1, 1], sqrt_p_arr = [1, 1], sqrt_gamma_arr = [1/2, 1],
             fee0_growth_arr = [0, 0], fee1_growth_arr = [0, 0] \<rparr>"

text \<open>The pool that \<open>Pool([], [], 1.0)\<close> builds: no tier at all.\<close>

definition pool0 :: Pool where
  "pool0 = \<lparr> size_p = 0, liquidity_arr = [], sqrt_p_arr = [], sqrt_gamma_arr = [],
             fee0_growth_arr = [], fee1_growth_arr = [] \<rparr>"

subsection \<open>The allocation formula in the specification's words\<close>




section \<open>Supporting facts\<close>

subsection \<open>Facts about masks\<close>

lemma length_put [simp]: "length (put m xs vs) = length xs"
  by (induction m xs vs rule: put.induct) simp_all

lemma length_fill [simp]: "length (fill m xs c) = length xs"
  by (induction m xs c rule: fill.induct) simp_all


lemma sel_map: "sel m (map f xs) = map f (sel m xs)"
  by (induction m xs rule: sel.induct) simp_all

lemma sel_zip: "sel m (zip xs ys) = zip (sel m xs) (sel m ys)"
proof (induction m xs arbitrary: ys rule: sel.induct)
  case (1 b bs x xs)
  then show ?case by (cases ys) simp_all
qed simp_all

lemma sel_map2: "map2 f (sel m xs) (sel m ys) = sel m (map2 f xs ys)"
  by (simp add: sel_map sel_zip)

lemma sel_map3: "map3 f (sel m xs) (sel m ys) (sel m zs) = sel m (map3 f xs ys zs)"
  by (simp add: map3_def sel_map sel_zip)

lemma put_sel_nth:
  "length m = length xs \<Longrightarrow> length xs = length ys \<Longrightarrow> i < length xs \<Longrightarrow>
   put m xs (sel m ys) ! i = (if m ! i then ys ! i else xs ! i)"
proof (induction m xs ys arbitrary: i rule: list_induct3)
  case Nil
  then show ?case by simp
next
  case (Cons b bs x xs y ys)
  then show ?case by (cases b; cases i) simp_all
qed

lemma sel_put_sel:
  "length m = length xs \<Longrightarrow> length xs = length ys \<Longrightarrow> sel m (put m xs (sel m ys)) = sel m ys"
proof (induction m xs ys rule: list_induct3)
  case Nil
  then show ?case by simp
next
  case (Cons b bs x xs y ys)
  then show ?case by (cases b) simp_all
qed

lemma fill_nth:
  "length m = length xs \<Longrightarrow> i < length xs \<Longrightarrow> fill m xs c ! i = (if m ! i then c else xs ! i)"
proof (induction m xs arbitrary: i rule: list_induct2)
  case Nil
  then show ?case by simp
next
  case (Cons b bs x xs)
  then show ?case by (cases i) simp_all
qed




lemma length_shrink: "length m = length xs \<Longrightarrow> length (shrink m xs) = length xs"
  by (simp add: shrink_def)

lemma shrink_nth:
  "length m = length xs \<Longrightarrow> i < length xs \<Longrightarrow> shrink m xs ! i = (m ! i \<and> 0 \<le> xs ! i)"
  by (simp add: shrink_def)

lemma shrink_Cons [simp]: "shrink (b # bs) (x # xs) = (b \<and> 0 \<le> x) # shrink bs xs"
  by (simp add: shrink_def)

lemma count_true_Cons [simp]:
  "count_true (b # bs) = (if b then Suc (count_true bs) else count_true bs)"
  by (simp add: count_true_def)

lemma count_true_Nil [simp]: "count_true [] = 0"
  by (simp add: count_true_def)






lemma length_alloc [simp]: "length (alloc lsg res amount m amts) = length amts"
  by (simp add: alloc_def)





subsection \<open>Facts about the loop\<close>

declare loop_amts.simps [simp del] loop_trace.simps [simp del]


lemma list_all_sel:
  "length m = length xs \<Longrightarrow> list_all P (sel m xs) \<longleftrightarrow> (\<forall>i < length xs. m ! i \<longrightarrow> P (xs ! i))"
  by (induction m xs rule: list_induct2) (auto simp: less_Suc_eq_0_disj)











lemma loop_amts_result:
  assumes "length m = n" "length amts = n" "loop_amts lsg res amount m amts = (amts_f, m_f)"
  shows "length amts_f = n \<and> length m_f = n \<and>
         (\<forall>i < n. 0 \<le> amts_f ! i \<and> (\<not> m_f ! i \<longrightarrow> amts_f ! i = 0))"
  using assms
proof (induction lsg res amount m amts rule: loop_amts.induct)
  case (1 lsg res amount msk amts)
  let ?a = "alloc lsg res amount msk amts"
  show ?case
  proof (cases "list_all (\<lambda>a. 0 \<le> a) (sel msk ?a)")
    case True
    then have r: "amts_f = fill (map Not msk) ?a 0" "m_f = msk"
      using "1.prems"(3) by (subst (asm) loop_amts.simps, simp add: Let_def)+
    have "\<forall>i < n. msk ! i \<longrightarrow> 0 \<le> ?a ! i"
      using True "1.prems"(1,2) by (simp add: list_all_sel)
    then show ?thesis using r "1.prems"(1,2) by (simp add: fill_nth)
  next
    case False
    then have "loop_amts lsg res amount (shrink msk ?a) ?a = (amts_f, m_f)"
      using "1.prems"(3) by (subst (asm) loop_amts.simps) (simp add: Let_def)
    then show ?thesis
      using False "1.prems"(1,2) by (intro "1.IH" [OF refl]) (simp_all add: length_shrink)
  qed
qed

subsection \<open>Facts about the pool arrays and swap\<close>

lemma length_np_zeros [simp]: "length (np_zeros n) = n"
  by (simp add: np_zeros_def)

lemma length_np_full [simp]: "length (np_full n b) = n"
  by (simp add: np_full_def)

lemma count_true_np_full [simp]: "count_true (np_full n True) = n"
  by (simp add: np_full_def count_true_def)

lemma length_map3 [simp]:
  "length (map3 f xs ys zs) = min (length xs) (min (length ys) (length zs))"
  by (simp add: map3_def)

lemma map3_nth:
  "i < length xs \<Longrightarrow> i < length ys \<Longrightarrow> i < length zs \<Longrightarrow>
   map3 f xs ys zs ! i = f (xs ! i) (ys ! i) (zs ! i)"
  by (simp add: map3_def)

lemma length_gamma_arr [simp]: "length (gamma_arr p) = length (sqrt_gamma_arr p)"
  by (simp add: gamma_arr_def)






lemma calc_tier_amts_in_lengths:
  assumes "calc_tier_amts_in p b amount = Inr (amts, msk)"
  shows "length amts = size_p p \<and> length msk = size_p p \<and>
         (\<forall>i < size_p p. 0 \<le> amts ! i \<and> (\<not> msk ! i \<longrightarrow> amts ! i = 0))"
proof -
  have "loop_amts (lsg_arr p) (res_arr p b) amount (np_full (size_p p) True) (np_zeros (size_p p))
          = (amts, msk)"
    using assms by (simp add: calc_tier_amts_in_def split: if_splits)
  then show ?thesis
    by (intro loop_amts_result [where m = "np_full (size_p p) True" and amts = "np_zeros (size_p p)"]) simp_all
qed

lemma sel_map2_put1:
  "length m = length zs \<Longrightarrow> length zs = length ys \<Longrightarrow>
   sel m (map2 f (put m zs (sel m ys)) xs) = sel m (map2 f ys xs)"
  by (simp add: sel_map2 [symmetric] sel_put_sel)

lemma sel_map2_put2:
  "length m = length zs \<Longrightarrow> length zs = length ys \<Longrightarrow>
   sel m (map2 f xs (put m zs (sel m ys))) = sel m (map2 f xs ys)"
  by (simp add: sel_map2 [symmetric] sel_put_sel)

lemma sel_map3_put2:
  "length m = length zs \<Longrightarrow> length zs = length ys \<Longrightarrow>
   sel m (map3 f xs (put m zs (sel m ys)) ws) = sel m (map3 f xs ys ws)"
  by (simp add: sel_map3 [symmetric] sel_put_sel)

lemma sel_map3_put3:
  "length m = length zs \<Longrightarrow> length zs = length ys \<Longrightarrow>
   sel m (map3 f xs ws (put m zs (sel m ys))) = sel m (map3 f xs ws ys)"
  by (simp add: sel_map3 [symmetric] sel_put_sel)

text \<open>The arrays that swap computes, for all tiers at once.\<close>

lemma swap_unfold:
  assumes wf: "wf_pool p" and pos: "0 < a"
    and calc: "calc_tier_amts_in p b a = Inr (amts, msk)"
  shows "swap p b a =
    (let n = size_p p;
         aaf = map2 (*) amts (gamma_arr p);
         spn = map3 (calc_sqrt_p_from_amt b) (sqrt_p_arr p) (liquidity_arr p) aaf;
         aout = map3 (calc_amt_from_sqrt_p (\<not> b)) (sqrt_p_arr p) spn (liquidity_arr p);
         fee = map2 (-) amts aaf;
         p1 = p\<lparr>sqrt_p_arr := put msk (sqrt_p_arr p) (sel msk spn)\<rparr>
     in (Inr \<lparr> amt_in = sum_list (sel msk amts),
               amt_out = sum_list (sel msk aout),
               fee_amt = sum_list (sel msk fee),
               fee_bps = (if sum_list (sel msk amts) = 0 then None
                          else Some (sum_list (sel msk fee) / sum_list (sel msk amts) * 10000)),
               amts_in = amts,
               amts_out = put msk (np_zeros n) (sel msk aout),
               fee_amts = put msk (np_zeros n) (sel msk fee) \<rparr>,
         if b then p1\<lparr>fee0_growth_arr :=
                      put msk (fee0_growth_arr p) (sel msk (map2 (+) (fee0_growth_arr p) (map2 (/) fee (liquidity_arr p))))\<rparr>
         else p1\<lparr>fee1_growth_arr :=
                      put msk (fee1_growth_arr p) (sel msk (map2 (+) (fee1_growth_arr p) (map2 (/) fee (liquidity_arr p))))\<rparr>))"
proof -
  have len: "length amts = size_p p" "length msk = size_p p"
    using calc_tier_amts_in_lengths [OF calc] by simp_all
  have wfl: "length (liquidity_arr p) = size_p p" "length (sqrt_p_arr p) = size_p p"
    "length (sqrt_gamma_arr p) = size_p p"
    "length (fee0_growth_arr p) = size_p p" "length (fee1_growth_arr p) = size_p p"
    using wf by (simp_all add: wf_pool_def)
  show ?thesis
    using pos
    by (simp add: swap_def calc Let_def sel_map2 sel_map3 sel_put_sel len wfl
        sel_map2_put1 sel_map2_put2 sel_map3_put2 sel_map3_put3
        gamma_arr_def [symmetric])
qed

subsection \<open>The allocator on a concrete pool\<close>

lemma all_less_2: "(\<forall>i < (2::nat). P i) \<longleftrightarrow> P 0 \<and> P 1"
  by (auto simp: less_2_cases_iff)

lemma valid_pool2: "valid_pool pool2"
  by (simp add: valid_pool_def wf_pool_def pool2_def all_less_2)

lemma calc_pool2_half: "calc_tier_amts_in pool2 True (1/2) = Inr ([0, 1/2], [False, True])"
  by (simp add: calc_tier_amts_in_def pool2_def loop_amts.simps alloc_def lsg_arr_def res_arr_def
      gamma_arr_def np_full_def np_zeros_def numeral_2_eq_2 shrink_def)


text \<open>
  Without tiers the loop makes one pass over an empty mask, nothing is allocated, and the
  swap reports a summed input of zero with no \<open>fee_bps\<close>. The data model of the
  specification asks for a positive tier count; the theorems on the allocator below say
  \<open>0 < size_p p\<close> where they need it.
\<close>

lemma trace_pool0: "calc_tier_trace pool0 is_token0 1 = [([], [])]"
  by (simp add: calc_tier_trace_def pool0_def loop_trace.simps alloc_def lsg_arr_def res_arr_def
      gamma_arr_def np_full_def np_zeros_def)

lemma calc_pool0: "calc_tier_amts_in pool0 is_token0 1 = Inr ([], [])"
  by (simp add: calc_tier_amts_in_def pool0_def loop_amts.simps alloc_def lsg_arr_def res_arr_def
      gamma_arr_def np_full_def np_zeros_def)

lemma swap_pool0:
  "swap pool0 is_token0 1 =
     (Inr \<lparr> amt_in = 0, amt_out = 0, fee_amt = 0, fee_bps = None,
            amts_in = [], amts_out = [], fee_amts = [] \<rparr>, pool0)"
  by (simp add: swap_def calc_pool0 Let_def)
     (simp add: pool0_def np_zeros_def map3_def)

subsection \<open>The allocator on a pool\<close>







subsection \<open>Swap, tier by tier\<close>



lemma swap_post:
  assumes wf: "wf_pool p" and c: "calc_tier_amts_in p b a = Inr (amts, msk)"
    and s: "swap p b a = (Inr r, p')"
  shows "size_p p' = size_p p" and "liquidity_arr p' = liquidity_arr p"
    and "sqrt_gamma_arr p' = sqrt_gamma_arr p"
    and "length (sqrt_p_arr p') = size_p p"
    and "length (fee0_growth_arr p') = size_p p" and "length (fee1_growth_arr p') = size_p p"
    and "b \<Longrightarrow> fee1_growth_arr p' = fee1_growth_arr p"
    and "\<not> b \<Longrightarrow> fee0_growth_arr p' = fee0_growth_arr p"
    and "amts_in r = amts"
    and "i < size_p p \<Longrightarrow> sqrt_p_arr p' ! i =
           (if msk ! i
            then calc_sqrt_p_from_amt b (sqrt_p_arr p ! i) (liquidity_arr p ! i)
                   (amts ! i * (sqrt_gamma_arr p ! i) ^ 2)
            else sqrt_p_arr p ! i)"
    and "i < size_p p \<Longrightarrow> fee_amts r ! i =
           (if msk ! i then amts ! i - amts ! i * (sqrt_gamma_arr p ! i) ^ 2 else 0)"
    and "i < size_p p \<Longrightarrow> b \<Longrightarrow> fee0_growth_arr p' ! i =
           (if msk ! i then fee0_growth_arr p ! i + fee_amts r ! i / liquidity_arr p ! i
            else fee0_growth_arr p ! i)"
    and "i < size_p p \<Longrightarrow> \<not> b \<Longrightarrow> fee1_growth_arr p' ! i =
           (if msk ! i then fee1_growth_arr p ! i + fee_amts r ! i / liquidity_arr p ! i
            else fee1_growth_arr p ! i)"
proof -
  have pos: "0 < a" using s by (auto simp: swap_def Let_def split: if_splits)
  have len: "length amts = size_p p" "length msk = size_p p"
    using calc_tier_amts_in_lengths [OF c] by simp_all
  have wfl: "length (liquidity_arr p) = size_p p" "length (sqrt_p_arr p) = size_p p"
    "length (sqrt_gamma_arr p) = size_p p"
    "length (fee0_growth_arr p) = size_p p" "length (fee1_growth_arr p) = size_p p"
    using wf by (simp_all add: wf_pool_def)
  note u = s [unfolded swap_unfold [OF wf pos c] Let_def, simplified]
  show "size_p p' = size_p p" "liquidity_arr p' = liquidity_arr p"
    "sqrt_gamma_arr p' = sqrt_gamma_arr p" "length (sqrt_p_arr p') = size_p p"
    "length (fee0_growth_arr p') = size_p p" "length (fee1_growth_arr p') = size_p p"
    "amts_in r = amts"
    using u wfl by (auto split: if_splits)
  show "b \<Longrightarrow> fee1_growth_arr p' = fee1_growth_arr p"
    "\<not> b \<Longrightarrow> fee0_growth_arr p' = fee0_growth_arr p"
    using u by auto
  show "sqrt_p_arr p' ! i =
           (if msk ! i
            then calc_sqrt_p_from_amt b (sqrt_p_arr p ! i) (liquidity_arr p ! i)
                   (amts ! i * (sqrt_gamma_arr p ! i) ^ 2)
            else sqrt_p_arr p ! i)" if "i < size_p p"
    using u that len wfl
    by (auto simp: put_sel_nth map3_nth gamma_arr_def split: if_splits)
  show f: "fee_amts r ! i =
           (if msk ! i then amts ! i - amts ! i * (sqrt_gamma_arr p ! i) ^ 2 else 0)"
    if "i < size_p p"
    using u that len wfl
    by (auto simp: put_sel_nth gamma_arr_def np_zeros_def split: if_splits)
  show "fee0_growth_arr p' ! i =
           (if msk ! i then fee0_growth_arr p ! i + fee_amts r ! i / liquidity_arr p ! i
            else fee0_growth_arr p ! i)" if "i < size_p p" "b"
    using u that len wfl f [OF that(1)]
    by (auto simp: put_sel_nth gamma_arr_def split: if_splits)
  show "fee1_growth_arr p' ! i =
           (if msk ! i then fee1_growth_arr p ! i + fee_amts r ! i / liquidity_arr p ! i
            else fee1_growth_arr p ! i)" if "i < size_p p" "\<not> b"
    using u that len wfl f [OF that(1)]
    by (auto simp: put_sel_nth gamma_arr_def split: if_splits)
qed

lemma calc_sqrt_p_pos:
  assumes "0 < liquidity" and "0 < sqrt_p0" and "0 \<le> amt"
  shows "0 < calc_sqrt_p_from_amt b sqrt_p0 liquidity amt"
proof -
  have d: "0 < liquidity + amt * sqrt_p0"
    using assms by (intro add_pos_nonneg mult_nonneg_nonneg) simp_all
  have "0 < (liquidity * sqrt_p0) / (liquidity + amt * sqrt_p0)"
    using assms d by simp
  moreover have "0 < sqrt_p0 + amt / liquidity"
    using assms by (intro add_pos_nonneg divide_nonneg_pos) simp_all
  ultimately show ?thesis by (simp add: calc_sqrt_p_from_amt_def)
qed



subsection \<open>Swaps on the concrete pool\<close>

lemma size_pool2: "size_p pool2 = 2"
  by (simp add: pool2_def)

lemma wf_pool2: "wf_pool pool2"
  using valid_pool2 by (simp add: valid_pool_def)

lemma calc_pool2_two: "calc_tier_amts_in pool2 True 2 = Inr ([2 / 3, 4 / 3], [True, True])"
  by (simp add: calc_tier_amts_in_def pool2_def loop_amts.simps alloc_def lsg_arr_def res_arr_def
      gamma_arr_def np_full_def np_zeros_def numeral_2_eq_2 shrink_def)

lemma swap_pool2_two:
  "swap pool2 True 2 =
     (Inr \<lparr> amt_in = 2, amt_out = - (5 / 7), fee_amt = 1 / 2, fee_bps = Some 2500,
            amts_in = [2 / 3, 4 / 3], amts_out = [- (1 / 7), - (4 / 7)], fee_amts = [1 / 2, 0] \<rparr>,
      pool2\<lparr>sqrt_p_arr := [6 / 7, 3 / 7], fee0_growth_arr := [1 / 2, 0]\<rparr>)"
  by (simp add: swap_def calc_pool2_two Let_def)
     (simp add: pool2_def np_zeros_def map3_def calc_sqrt_p_from_amt_def calc_amt_from_sqrt_p_def
        numeral_2_eq_2)

lemma pool_init_pool2: "Pool_init [1, 1] [1 / 2, 1] 1 = Inr pool2"
  by (simp add: Pool_init_def pool2_def numeral_2_eq_2)

section \<open>Tier allocator\<close>



text \<open>
  C2. On a valid pool and for an amount >= 0 the allocator returns an amount array and a
  mask of the pool's size; no amount is negative, and the amount of every tier that the
  final mask excludes is zero.
\<close>

theorem tier_amts_nonneg:
  assumes "valid_pool p" and "0 \<le> amount"
  shows "\<exists>amts msk. calc_tier_amts_in p is_token0 amount = Inr (amts, msk) \<and>
           length amts = size_p p \<and> length msk = size_p p \<and>
           (\<forall>i < size_p p. 0 \<le> amts ! i \<and> (\<not> msk ! i \<longrightarrow> amts ! i = 0))"
proof -
  obtain amts msk where r: "calc_tier_amts_in p is_token0 amount = Inr (amts, msk)"
    using assms(2) by (cases "loop_amts (lsg_arr p) (res_arr p is_token0) amount
        (np_full (size_p p) True) (np_zeros (size_p p))") (simp add: calc_tier_amts_in_def)
  then show ?thesis using calc_tier_amts_in_lengths [OF r] by simp
qed

theorem tier_amts_nonneg_witness:
  "\<exists>amts msk. calc_tier_amts_in pool2 True (1/2) = Inr (amts, msk) \<and>
     length amts = 2 \<and> length msk = 2 \<and> 0 \<le> amts ! 0 \<and> 0 \<le> amts ! 1 \<and>
     (msk ! 0 \<or> amts ! 0 = 0) \<and> (msk ! 1 \<or> amts ! 1 = 0)"
  using tier_amts_nonneg [OF valid_pool2, of "1/2" True]
  by (auto simp: pool2_def all_less_2)





section \<open>Price algebra\<close>

text \<open>
  C4. For liquidity > 0, sqrt_price0 > 0 and amount >= 0, the new price is
  \<open>(liquidity * sqrt_price0) / (liquidity + amount * sqrt_price0)\<close> when token0 is sold and
  \<open>sqrt_price0 + amount / liquidity\<close> when token1 is sold; the amount owed is
  \<open>liquidity * (sqrt_price0 - sqrt_price1) / (sqrt_price0 * sqrt_price1)\<close> for token0 and
  \<open>liquidity * (sqrt_price1 - sqrt_price0)\<close> for token1. Under these hypotheses the divisor
  of the first formula is positive, and so is the new price.
\<close>

theorem price_algebra_formulas:
  assumes "0 < liquidity" and "0 < sqrt_p0" and "0 \<le> amt"
  shows "calc_sqrt_p_from_amt True sqrt_p0 liquidity amt
           = (liquidity * sqrt_p0) / (liquidity + amt * sqrt_p0) \<and>
         calc_sqrt_p_from_amt False sqrt_p0 liquidity amt = sqrt_p0 + amt / liquidity \<and>
         calc_amt_from_sqrt_p True sqrt_p0 sqrt_p1 liquidity
           = liquidity * (sqrt_p0 - sqrt_p1) / (sqrt_p0 * sqrt_p1) \<and>
         calc_amt_from_sqrt_p False sqrt_p0 sqrt_p1 liquidity = liquidity * (sqrt_p1 - sqrt_p0) \<and>
         0 < liquidity + amt * sqrt_p0 \<and>
         0 < calc_sqrt_p_from_amt is_token0 sqrt_p0 liquidity amt"
proof -
  have "0 < liquidity + amt * sqrt_p0"
    using assms by (intro add_pos_nonneg mult_nonneg_nonneg) simp_all
  then show ?thesis
    using calc_sqrt_p_pos [OF assms, of is_token0]
    by (simp add: calc_sqrt_p_from_amt_def calc_amt_from_sqrt_p_def)
qed

theorem price_algebra_formulas_witness:
  "(0::real) < 10000 \<and> (0::real) < 1 \<and> (0::real) \<le> 1000 \<and>
   calc_sqrt_p_from_amt True 1 10000 1000 = 10 / 11 \<and>
   calc_sqrt_p_from_amt False 1 10000 1000 = 11 / 10 \<and>
   calc_amt_from_sqrt_p True 1 (11 / 10) 10000 = - (10000 / 11) \<and>
   calc_amt_from_sqrt_p False 1 (10 / 11) 10000 = - (10000 / 11)"
  using price_algebra_formulas [of 10000 1 1000 "11 / 10"]
    price_algebra_formulas [of 10000 1 1000 "10 / 11"]
  by simp

section \<open>Swap\<close>



text \<open>
  C6. A successful swap on a valid pool leaves \<open>size\<close>, \<open>liquidity\<close>, \<open>sqrt_gamma\<close> and the fee-growth
  array of the token that was not sold unchanged. For a tier outside the final mask the
  price and both fee-growth entries are unchanged; for a tier inside it the fee-growth
  entry of the sold token grows by \<open>fee_amount[i] / liquidity[i]\<close>, where
  \<open>fee_amount[i] = amount_in[i] - amount_in[i] * gamma[i]\<close>.
\<close>

theorem swap_frame:
  assumes "valid_pool p" and "calc_tier_amts_in p is_token0 amount = Inr (amts, msk)"
    and "swap p is_token0 amount = (Inr r, p')"
  shows "size_p p' = size_p p \<and> liquidity_arr p' = liquidity_arr p \<and>
         sqrt_gamma_arr p' = sqrt_gamma_arr p \<and>
         (if is_token0 then fee1_growth_arr p' = fee1_growth_arr p
          else fee0_growth_arr p' = fee0_growth_arr p) \<and>
         length (sqrt_p_arr p') = size_p p \<and>
         length (fee0_growth_arr p') = size_p p \<and> length (fee1_growth_arr p') = size_p p \<and>
         (\<forall>i < size_p p.
            if msk ! i
            then fee_amts r ! i = amts ! i - amts ! i * (sqrt_gamma_arr p ! i) ^ 2 \<and>
                 (if is_token0
                  then fee0_growth_arr p' ! i
                         = fee0_growth_arr p ! i + fee_amts r ! i / liquidity_arr p ! i
                  else fee1_growth_arr p' ! i
                         = fee1_growth_arr p ! i + fee_amts r ! i / liquidity_arr p ! i)
            else sqrt_p_arr p' ! i = sqrt_p_arr p ! i \<and>
                 fee0_growth_arr p' ! i = fee0_growth_arr p ! i \<and>
                 fee1_growth_arr p' ! i = fee1_growth_arr p ! i)"
proof -
  have wf: "wf_pool p" using assms(1) by (simp add: valid_pool_def)
  note q = swap_post [OF wf assms(2,3)]
  have "if msk ! i
        then fee_amts r ! i = amts ! i - amts ! i * (sqrt_gamma_arr p ! i) ^ 2 \<and>
             (if is_token0
              then fee0_growth_arr p' ! i
                     = fee0_growth_arr p ! i + fee_amts r ! i / liquidity_arr p ! i
              else fee1_growth_arr p' ! i
                     = fee1_growth_arr p ! i + fee_amts r ! i / liquidity_arr p ! i)
        else sqrt_p_arr p' ! i = sqrt_p_arr p ! i \<and>
             fee0_growth_arr p' ! i = fee0_growth_arr p ! i \<and>
             fee1_growth_arr p' ! i = fee1_growth_arr p ! i" if "i < size_p p" for i
  proof (cases is_token0)
    case True
    then show ?thesis using q(7) q(10,11,12) [OF that] by simp
  next
    case False
    then show ?thesis using q(8) q(10,11,13) [OF that] by simp
  qed
  then show ?thesis using q(1-8) by simp
qed

theorem swap_frame_witness:
  "liquidity_arr (snd (swap pool2 True 2)) = liquidity_arr pool2 \<and>
   sqrt_gamma_arr (snd (swap pool2 True 2)) = sqrt_gamma_arr pool2 \<and>
   fee1_growth_arr (snd (swap pool2 True 2)) = fee1_growth_arr pool2 \<and>
   fee0_growth_arr (snd (swap pool2 True 2)) ! 0
     = fee0_growth_arr pool2 ! 0 + (1 / 2) / liquidity_arr pool2 ! 0"
  using swap_frame [OF valid_pool2 calc_pool2_two, of _ "snd (swap pool2 True 2)"] swap_pool2_two
  by (simp add: size_pool2 all_less_2)





section \<open>Construction\<close>

text \<open>
  C9 says that construction fails on arrays of different lengths, on a non-positive
  liquidity, on a \<open>sqrt_gamma\<close> outside (0, 1] and on a non-positive initial price. The
  constructor checks nothing: the call below has all four defects and returns a pool.
\<close>

theorem pool_init_counterexample:
  "Pool_init [- 1] [2, 3] 0 =
     Inr \<lparr> size_p = 1, liquidity_arr = [- 1], sqrt_p_arr = [0], sqrt_gamma_arr = [2, 3],
           fee0_growth_arr = [0], fee1_growth_arr = [0] \<rparr>"
  by (simp add: Pool_init_def)

text \<open>
  C9, amended. Construction never fails: it returns the pool that holds the given arrays,
  the initial price once per tier and zero fee growth. That pool is valid exactly when the
  arguments are: as many \<open>sqrt_gamma\<close> values as liquidity values, every liquidity positive,
  every \<open>sqrt_gamma\<close> in (0, 1], and a positive initial price if there is a tier.
\<close>

theorem pool_init_total:
  "\<exists>p. Pool_init liquidity sqrt_gamma sqrt_p = Inr p \<and>
       size_p p = length liquidity \<and> liquidity_arr p = liquidity \<and>
       sqrt_gamma_arr p = sqrt_gamma \<and>
       sqrt_p_arr p = replicate (length liquidity) sqrt_p \<and>
       fee0_growth_arr p = replicate (length liquidity) 0 \<and>
       fee1_growth_arr p = replicate (length liquidity) 0 \<and>
       (valid_pool p \<longleftrightarrow>
          length sqrt_gamma = length liquidity \<and> (\<forall>x \<in> set liquidity. 0 < x) \<and>
          (\<forall>x \<in> set sqrt_gamma. 0 < x \<and> x \<le> 1) \<and> (liquidity = [] \<or> 0 < sqrt_p))"
proof -
  have "(\<forall>i < length liquidity. 0 < liquidity ! i) \<longleftrightarrow> (\<forall>x \<in> set liquidity. 0 < x)"
    by (auto simp: all_set_conv_all_nth)
  moreover have "length sqrt_gamma = length liquidity \<Longrightarrow>
      (\<forall>i < length liquidity. 0 < sqrt_gamma ! i \<and> sqrt_gamma ! i \<le> 1)
        \<longleftrightarrow> (\<forall>x \<in> set sqrt_gamma. 0 < x \<and> x \<le> 1)"
    by (auto simp: all_set_conv_all_nth)
  ultimately show ?thesis
    by (auto simp: Pool_init_def valid_pool_def wf_pool_def)
qed

theorem pool_init_total_witness:
  "Pool_init [1, 1] [1 / 2, 1] 1 = Inr pool2 \<and> wf_pool pool2 \<and>
   length [1 / 2, 1 :: real] = length [1, 1 :: real]"
  using pool_init_total [of "[1, 1]" "[1 / 2, 1]" 1] pool_init_pool2 wf_pool2
  by simp

end
